theory Spec2Isabelle
  imports Complex_Main "HOL-Library.Multiset" "HOL-Library.Sublist" "HOL-Library.AList"
begin

section \<open>JavaScript strings and run-time values\<close>

text \<open>
  A JavaScript string is a sequence of UTF-16 code units. \<open>str\<close> writes a Basic Latin
  literal; the accented letters of the category labels are given by their code unit
  (\<open>232\<close> is U+00E8, \<open>233\<close> is U+00E9, both precomposed in the source file).
\<close>

type_synonym jsstring = "nat list"

definition str :: "string \<Rightarrow> jsstring" where
  "str s = map of_char s"

text \<open>
  Run-time values. TypeScript annotations are erased when the program runs, so a
  parameter declared \<open>string\<close> holds whatever value the caller passes; the declared type
  corresponds to the values \<open>Str s\<close>. \<open>Num\<close> carries a finite number (the rows of the
  backend are JSON, which has neither NaN nor infinities). \<open>Object\<close> is a plain object
  with its own properties in insertion order. \<open>Builtin k\<close> is the member that every plain
  object inherits from \<open>Object.prototype\<close> under the name \<open>k\<close>.
\<close>

datatype jsvalue = Undefined | Null | Bool bool | Num real | Str jsstring
  | Object "(jsstring \<times> jsvalue) list" | Builtin jsstring

text \<open>The result of the abstract operation ToNumber.\<close>

datatype jsnumber = NaN | NegInfinity | Finite real | PosInfinity

text \<open>
  The built-ins of the JavaScript engine that the source calls and whose result depends
  on tables or on text outside this repository: Unicode lower-casing, the numeric value
  of a string, the decimal rendering of a number, and the source text that a built-in
  member of \<open>Object.prototype\<close> converts to.
\<close>

record engine =
  toLowerCase :: "jsstring \<Rightarrow> jsstring"
  stringToNumber :: "jsstring \<Rightarrow> jsnumber"
  numberToString :: "real \<Rightarrow> jsstring"
  builtinToString :: "jsstring \<Rightarrow> jsstring"

datatype js_error = TypeError

text \<open>
  The property names of \<open>Object.prototype\<close> (ECMAScript 20.1.3 and Annex B.2.2). An
  object literal has \<open>Object.prototype\<close> as its prototype, so a read \<open>obj[key]\<close> that
  finds no own property continues there.
\<close>

definition objectPrototypeNames :: "jsstring list" where
  "objectPrototypeNames =
     [str ''constructor'', str ''hasOwnProperty'', str ''isPrototypeOf'',
      str ''propertyIsEnumerable'', str ''toLocaleString'', str ''toString'',
      str ''valueOf'', str ''__proto__'', str ''__defineGetter__'',
      str ''__defineSetter__'', str ''__lookupGetter__'', str ''__lookupSetter__'']"

definition getProperty :: "(jsstring \<times> jsvalue) list \<Rightarrow> jsstring \<Rightarrow> jsvalue" where
  "getProperty obj key =
     (case map_of obj key of
        Some v \<Rightarrow> v
      | None \<Rightarrow> if key \<in> set objectPrototypeNames then Builtin key else Undefined)"

fun truthy :: "jsvalue \<Rightarrow> bool" where
  "truthy Undefined = False"
| "truthy Null = False"
| "truthy (Bool b) = b"
| "truthy (Num r) = (r \<noteq> 0)"
| "truthy (Str s) = (s \<noteq> [])"
| "truthy (Object fs) = True"
| "truthy (Builtin k) = True"

definition jsOr :: "jsvalue \<Rightarrow> jsvalue \<Rightarrow> jsvalue" where
  "jsOr a b = (if truthy a then a else b)"

fun ToString :: "engine \<Rightarrow> jsvalue \<Rightarrow> jsstring" where
  "ToString E Undefined = str ''undefined''"
| "ToString E Null = str ''null''"
| "ToString E (Bool b) = (if b then str ''true'' else str ''false'')"
| "ToString E (Num r) = numberToString E r"
| "ToString E (Str s) = s"
| "ToString E (Object fs) = str ''[object Object]''"
| "ToString E (Builtin k) = builtinToString E k"

fun startsWith :: "jsstring \<Rightarrow> jsstring \<Rightarrow> bool" where
  "startsWith s [] = True"
| "startsWith [] (y # ys) = False"
| "startsWith (x # xs) (y # ys) = (x = y \<and> startsWith xs ys)"

fun includes_str :: "jsstring \<Rightarrow> jsstring \<Rightarrow> bool" where
  "includes_str [] t = (t = [])"
| "includes_str (x # xs) t = (startsWith (x # xs) t \<or> includes_str xs t)"

section \<open>categoryUtils\<close>

definition categoryDiminutives :: "(jsstring \<times> jsstring) list" where
  "categoryDiminutives =
     [(str ''Informatique'', str ''INF''),
      (str ''Lumi'' @ [232] @ str ''re'', str ''LUM''),
      (str ''Vid'' @ [233] @ str ''o-Photo'', str ''VID''),
      (str ''Appareils-Num'' @ [233] @ str ''riques'', str ''NUM''),
      (str ''Son'', str ''SON''),
      (str ''Electro M'' @ [233] @ str ''nager'', str ''ELE''),
      (str ''Serveur-Stockage'', str ''SRV''),
      (str ''p'' @ [233] @ str ''riph'' @ [233] @ str ''rique'', str ''PRH''),
      (str ''imprimante'', str ''IMP'')]"

text \<open>The object that the literal \<open>categoryDiminutives\<close> denotes at run time.\<close>

definition categoryDiminutivesObject :: "(jsstring \<times> jsvalue) list" where
  "categoryDiminutivesObject = map (\<lambda>(category, diminutive). (category, Str diminutive)) categoryDiminutives"

text \<open>
  \<open>return categoryDiminutives[category] || category\<close>. The subscript converts its
  operand to a property key, which for a string is the string itself.
\<close>

definition getCategoryAbbreviation :: "engine \<Rightarrow> jsvalue \<Rightarrow> jsvalue" where
  "getCategoryAbbreviation E category =
     jsOr (getProperty categoryDiminutivesObject (ToString E category)) category"

text \<open>The template literal converts both interpolated values with ToString.\<close>

definition getProductCode :: "engine \<Rightarrow> jsvalue \<Rightarrow> jsvalue \<Rightarrow> jsstring" where
  "getProductCode E category code =
     ToString E (getCategoryAbbreviation E category) @ str ''-'' @ ToString E code"

text \<open>
  \<open>searchTerm.toLowerCase()\<close> throws a TypeError when \<open>searchTerm\<close> is not a string.
  \<open>Object.entries\<close> lists the own properties only, in insertion order (no label is an
  array index).
\<close>

definition searchInCategoryAbbreviations :: "engine \<Rightarrow> jsvalue \<Rightarrow> js_error + jsstring list" where
  "searchInCategoryAbbreviations E searchTerm =
     (case searchTerm of
        Str s \<Rightarrow>
          (let term = toLowerCase E s
           in Inr (map fst
                (filter (\<lambda>(category, diminutive).
                           includes_str (toLowerCase E category) term \<or>
                           includes_str (toLowerCase E diminutive) term)
                   categoryDiminutives)))
      | _ \<Rightarrow> Inl TypeError)"

section \<open>An engine for evaluating examples\<close>

text \<open>
  \<open>sampleEngine\<close> agrees with ECMAScript on the inputs the examples use: lower-casing of
  Basic Latin and Latin-1 letters, numeric strings made of decimal digits, the rendering
  of natural numbers, and the text of a native function as V8 prints it.
\<close>

definition lowerUnit :: "nat \<Rightarrow> nat" where
  "lowerUnit c = (if (65 \<le> c \<and> c \<le> 90) \<or> (192 \<le> c \<and> c \<le> 222 \<and> c \<noteq> 215) then c + 32 else c)"

fun digits :: "nat \<Rightarrow> jsstring" where
  "digits n = (if n < 10 then [48 + n] else digits (n div 10) @ [48 + n mod 10])"

definition digitsValue :: "jsstring \<Rightarrow> nat" where
  "digitsValue s = foldl (\<lambda>acc c. 10 * acc + (c - 48)) 0 s"

definition sampleEngine :: engine where
  "sampleEngine =
     \<lparr> toLowerCase = map lowerUnit,
       stringToNumber = (\<lambda>s. if \<forall>c \<in> set s. 48 \<le> c \<and> c \<le> 57
                              then Finite (real (digitsValue s)) else NaN),
       numberToString = (\<lambda>r. digits (nat \<lfloor>r\<rfloor>)),
       builtinToString = (\<lambda>k. if k = str ''__proto__'' then str ''[object Object]''
                               else if k = str ''constructor''
                               then str ''function Object() { [native code] }''
                               else str ''function '' @ k @ str ''() { [native code] }'') \<rparr>"

section \<open>The backend client\<close>

text \<open>
  A row of a relation is the plain object that the backend's JSON encodes. The client
  library answers every request with an object \<open>{ data, error }\<close>; \<open>error\<close> is
  \<open>null\<close> on success. The backend is a collaborator outside this repository: it is a
  parameter that maps each request to its answer.
\<close>

type_synonym row = "(jsstring \<times> jsvalue) list"

record 'd response =
  data :: "'d option"
  error :: jsvalue

text \<open>\<open>from(t).select(c).order(o, { ascending: a })\<close>\<close>

record list_query =
  from_relation :: jsstring
  select_columns :: jsstring
  order_column :: jsstring
  ascending :: bool

text \<open>\<open>from(t).select(c).eq(k, v).single()\<close> and \<open>from(t).delete().eq(k, v)\<close>\<close>

record eq_query =
  eq_relation :: jsstring
  eq_column :: jsstring
  eq_value :: jsvalue

record backend =
  select_list :: "list_query \<Rightarrow> (row list) response"
  select_single :: "eq_query \<Rightarrow> row response"
  delete_eq :: "eq_query \<Rightarrow> unit response"

text \<open>\<open>data || []\<close>: an array is truthy even when it is empty.\<close>

definition dataOrEmpty :: "row list option \<Rightarrow> row list" where
  "dataOrEmpty d = (case d of None \<Rightarrow> [] | Some rows \<Rightarrow> rows)"

text \<open>
  \<open>{ ...obj, k1: v1, ..., kn: vn }\<close>: a property that the object already has keeps its
  place and takes the new value, a new one is appended.
\<close>

definition spread :: "row \<Rightarrow> (jsstring \<times> jsvalue) list \<Rightarrow> row" where
  "spread obj props = foldl (\<lambda>acc (k, v). AList.update k v acc) obj props"


section \<open>Page components\<close>

text \<open>
  What a page shares with the browser: the console, the alert dialogs shown, the routes
  navigated to, and the \<open>loading\<close> flag that every page keeps. Each page adds its own
  state variables.
\<close>

datatype console_entry = ConsoleError jsstring jsvalue | ConsoleLog jsstring jsvalue

record page =
  console :: "console_entry list"
  alerts :: "jsstring list"
  navigations :: "jsstring list"
  loading :: bool

record devices_page = page +
  devices :: "row list"

record clients_page = page +
  clients :: "row list"

record interventions_page = page +
  interventions :: "row list"

record quotes_invoices_page = page +
  quotesInvoices :: "row list"


subsection \<open>Devices\<close>

definition fetchDevices :: "backend \<Rightarrow> devices_page \<Rightarrow> devices_page" where
  "fetchDevices B st =
     (let r = select_list B \<lparr> from_relation = str ''devices_with_relations'',
                select_columns = str ''*'', order_column = str ''created_at'',
                ascending = False \<rparr>
      in if \<not> truthy (error r)
         then st\<lparr> devices := dataOrEmpty (data r), loading := False \<rparr>
         else
           (let st1 = st\<lparr> console := console st @
                        [ConsoleError (str ''Error fetching devices:'') (error r)] \<rparr>;
                fallback = select_list B \<lparr> from_relation = str ''devices'',
                             select_columns = str ''*'', order_column = str ''created_at'',
                             ascending = False \<rparr>
            in if \<not> truthy (error fallback)
               then st1\<lparr> devices :=
                          map (\<lambda>device. spread device
                                 [(str ''operator_name'', Null),
                                  (str ''intervention_count'', Num 0),
                                  (str ''last_intervention_date'', Null)])
                            (dataOrEmpty (data fallback)),
                        loading := False \<rparr>
               else st1\<lparr> console := console st1 @
                          [ConsoleError (str ''Fallback error:'') (error fallback)],
                        devices := [], loading := False \<rparr>))"


subsection \<open>Clients\<close>

definition fetchClients :: "backend \<Rightarrow> clients_page \<Rightarrow> clients_page" where
  "fetchClients B st =
     (let r = select_list B \<lparr> from_relation = str ''clients_with_devices'',
                select_columns = str ''*'', order_column = str ''created_at'',
                ascending = False \<rparr>
      in if \<not> truthy (error r)
         then st\<lparr> clients := dataOrEmpty (data r), loading := False \<rparr>
         else
           (let st1 = st\<lparr> console := console st @
                        [ConsoleError (str ''Error fetching clients:'') (error r)] \<rparr>;
                fallback = select_list B \<lparr> from_relation = str ''clients'',
                             select_columns = str ''*'', order_column = str ''created_at'',
                             ascending = False \<rparr>
            in if \<not> truthy (error fallback)
               then st1\<lparr> clients := dataOrEmpty (data fallback), loading := False \<rparr>
               else st1\<lparr> console := console st1 @
                          [ConsoleError (str ''Fallback error:'') (error fallback)],
                        clients := [], loading := False \<rparr>))"


subsection \<open>QuotesInvoices\<close>

definition fetchQuotesInvoices :: "backend \<Rightarrow> quotes_invoices_page \<Rightarrow> quotes_invoices_page" where
  "fetchQuotesInvoices B st =
     (let r = select_list B \<lparr> from_relation = str ''quotes_invoices_with_relations'',
                select_columns = str ''*'', order_column = str ''created_at'',
                ascending = False \<rparr>
      in if \<not> truthy (error r)
         then st\<lparr> quotesInvoices := dataOrEmpty (data r), loading := False \<rparr>
         else st\<lparr> console := console st @
                    [ConsoleError (str ''Error fetching quotes and invoices:'') (error r)],
                  loading := False \<rparr>)"


subsection \<open>Interventions\<close>




subsection \<open>QuoteInvoiceDetail\<close>



section \<open>Client-side sorting of the list pages\<close>

text \<open>
  The relational operator \<open><\<close> of ECMAScript: both operands are converted to
  primitives; two strings are compared by code units, anything else numerically, and a
  comparison with NaN is false. \<open>a > b\<close> is \<open>b < a\<close>.
\<close>

fun ToPrimitive :: "engine \<Rightarrow> jsvalue \<Rightarrow> jsvalue" where
  "ToPrimitive E (Object fs) = Str (ToString E (Object fs))"
| "ToPrimitive E (Builtin k) = Str (ToString E (Builtin k))"
| "ToPrimitive E v = v"

fun ToNumber :: "engine \<Rightarrow> jsvalue \<Rightarrow> jsnumber" where
  "ToNumber E Undefined = NaN"
| "ToNumber E Null = Finite 0"
| "ToNumber E (Bool b) = Finite (if b then 1 else 0)"
| "ToNumber E (Num r) = Finite r"
| "ToNumber E (Str s) = stringToNumber E s"
| "ToNumber E (Object fs) = stringToNumber E (ToString E (Object fs))"
| "ToNumber E (Builtin k) = stringToNumber E (ToString E (Builtin k))"

fun numberLess :: "jsnumber \<Rightarrow> jsnumber \<Rightarrow> bool" where
  "numberLess NaN y = False"
| "numberLess x NaN = False"
| "numberLess NegInfinity y = (y \<noteq> NegInfinity)"
| "numberLess PosInfinity y = False"
| "numberLess (Finite x) NegInfinity = False"
| "numberLess (Finite x) (Finite y) = (x < y)"
| "numberLess (Finite x) PosInfinity = True"

fun stringLess :: "jsstring \<Rightarrow> jsstring \<Rightarrow> bool" where
  "stringLess s [] = False"
| "stringLess [] (y # ys) = True"
| "stringLess (x # xs) (y # ys) = (x < y \<or> (x = y \<and> stringLess xs ys))"

definition jsLess :: "engine \<Rightarrow> jsvalue \<Rightarrow> jsvalue \<Rightarrow> bool" where
  "jsLess E a b =
     (case (ToPrimitive E a, ToPrimitive E b) of
        (Str s, Str t) \<Rightarrow> stringLess s t
      | (pa, pb) \<Rightarrow> numberLess (ToNumber E pa) (ToNumber E pb))"

text \<open>\<open>if (typeof v === 'string') v = v.toLowerCase()\<close>\<close>

definition lowerIfString :: "engine \<Rightarrow> jsvalue \<Rightarrow> jsvalue" where
  "lowerIfString E v = (case v of Str s \<Rightarrow> Str (toLowerCase E s) | _ \<Rightarrow> v)"

datatype sort_direction = asc | desc

text \<open>
  The comparator that Devices, Interventions and QuotesInvoices each pass to \<open>sort\<close>;
  the three pages spell it identically. \<open>sortField\<close> is falsy when it is the empty
  string.
\<close>

definition compareBySortField ::
  "engine \<Rightarrow> jsstring \<Rightarrow> sort_direction \<Rightarrow> row \<Rightarrow> row \<Rightarrow> int" where
  "compareBySortField E sortField sortDirection a b =
     (if sortField = [] then 0
      else
        (let aValue = lowerIfString E (getProperty a sortField);
             bValue = lowerIfString E (getProperty b sortField)
         in if jsLess E aValue bValue then (if sortDirection = asc then - 1 else 1)
            else if jsLess E bValue aValue then (if sortDirection = asc then 1 else - 1)
            else 0))"

text \<open>
  \<open>Array.prototype.sort\<close> is stable (ECMAScript 2019). It is modelled by the stable
  insertion sort: an element goes in front of the first later element that the
  comparator does not put before it. For a consistent comparator every stable sort
  returns this list; for an inconsistent one ECMAScript leaves the order to the
  implementation.
\<close>

fun insertBy :: "('a \<Rightarrow> 'a \<Rightarrow> int) \<Rightarrow> 'a \<Rightarrow> 'a list \<Rightarrow> 'a list" where
  "insertBy cmp x [] = [x]"
| "insertBy cmp x (y # ys) = (if cmp x y \<le> 0 then x # y # ys else y # insertBy cmp x ys)"

fun sortBy :: "('a \<Rightarrow> 'a \<Rightarrow> int) \<Rightarrow> 'a list \<Rightarrow> 'a list" where
  "sortBy cmp [] = []"
| "sortBy cmp (x # xs) = insertBy cmp x (sortBy cmp xs)"

text \<open>\<open>[...filtered].sort(comparator)\<close> on each page.\<close>

definition sortedDevices ::
  "engine \<Rightarrow> jsstring \<Rightarrow> sort_direction \<Rightarrow> row list \<Rightarrow> row list" where
  "sortedDevices E sortField sortDirection filteredDevices =
     sortBy (compareBySortField E sortField sortDirection) filteredDevices"

definition sortedInterventions ::
  "engine \<Rightarrow> jsstring \<Rightarrow> sort_direction \<Rightarrow> row list \<Rightarrow> row list" where
  "sortedInterventions E sortField sortDirection filteredInterventions =
     sortBy (compareBySortField E sortField sortDirection) filteredInterventions"

definition sortedQuotesInvoices ::
  "engine \<Rightarrow> jsstring \<Rightarrow> sort_direction \<Rightarrow> row list \<Rightarrow> row list" where
  "sortedQuotesInvoices E sortField sortDirection filteredQuotesInvoices =
     sortBy (compareBySortField E sortField sortDirection) filteredQuotesInvoices"

section \<open>The relational schema\<close>

text \<open>
  The tables on the foreign keys that reach \<open>interventions\<close>, with their key columns
  (\<open>BIGINT\<close>, all \<open>NOT NULL\<close> except \<open>devices.operator_id\<close>). The migrations declare
  \<^item> \<open>devices.operator_id\<close> references \<open>operators(id)\<close>, \<open>ON DELETE SET NULL\<close>;
  \<^item> \<open>interventions.device_id\<close> references \<open>devices(id)\<close>, \<open>ON DELETE CASCADE\<close>;
  \<^item> \<open>interventions.operator_id\<close> references \<open>operators(id)\<close>, \<open>ON DELETE CASCADE\<close>;
  \<^item> \<open>intervention_history.device_id\<close>, \<open>.operator_id\<close> and \<open>.intervention_id\<close>
    reference \<open>devices(id)\<close>, \<open>operators(id)\<close> and \<open>interventions(id)\<close>, each
    \<open>ON DELETE CASCADE\<close>;
  no foreign key names an \<open>ON UPDATE\<close> action, so a referenced key cannot change.
  The constraints were created on truncated tables.
\<close>

record device_row =
  d_id :: int
  d_operator_id :: "int option"

record intervention_row =
  i_id :: int
  i_device_id :: int
  i_operator_id :: int

record history_row =
  h_id :: int
  h_device_id :: int
  h_operator_id :: int
  h_intervention_id :: int

record database =
  tbl_operators :: "int list"
  tbl_devices :: "device_row list"
  tbl_interventions :: "intervention_row list"
  tbl_intervention_history :: "history_row list"

definition empty_database :: database where
  "empty_database = \<lparr> tbl_operators = [], tbl_devices = [], tbl_interventions = [],
                       tbl_intervention_history = [] \<rparr>"

datatype sql_error = UniqueViolation | ForeignKeyViolation

datatype statement =
    InsertOperator int
  | UpdateOperatorId int int
  | DeleteOperator int
  | InsertDevice device_row
  | UpdateDeviceOperator int "int option"
  | UpdateDeviceId int int
  | DeleteDevice int
  | InsertIntervention intervention_row
  | UpdateIntervention int int int
  | UpdateInterventionId int int
  | DeleteIntervention int
  | InsertHistory history_row
  | UpdateHistory int int int int
  | DeleteHistory int

definition operator_exists :: "database \<Rightarrow> int \<Rightarrow> bool" where
  "operator_exists db k = (k \<in> set (tbl_operators db))"

definition device_exists :: "database \<Rightarrow> int \<Rightarrow> bool" where
  "device_exists db k = (k \<in> set (map d_id (tbl_devices db)))"

definition intervention_exists :: "database \<Rightarrow> int \<Rightarrow> bool" where
  "intervention_exists db k = (k \<in> set (map i_id (tbl_interventions db)))"

definition history_exists :: "database \<Rightarrow> int \<Rightarrow> bool" where
  "history_exists db k = (k \<in> set (map h_id (tbl_intervention_history db)))"

text \<open>The rows that \<open>ON DELETE CASCADE\<close> removes together with a set of interventions.\<close>

definition cascade_history :: "int list \<Rightarrow> history_row list \<Rightarrow> history_row list" where
  "cascade_history removed hs = filter (\<lambda>h. h_intervention_id h \<notin> set removed) hs"

text \<open>
  One statement, executed as PostgreSQL executes it under the declared constraints: a
  statement that violates a constraint fails and changes nothing; an update or delete
  that matches no row succeeds and changes nothing.
\<close>

fun exec :: "statement \<Rightarrow> database \<Rightarrow> sql_error + database" where
  "exec (InsertOperator k) db =
     (if operator_exists db k then Inl UniqueViolation
      else Inr (db\<lparr> tbl_operators := tbl_operators db @ [k] \<rparr>))"
| "exec (UpdateOperatorId old new) db =
     (if \<not> operator_exists db old \<or> new = old then Inr db
      else if operator_exists db new then Inl UniqueViolation
      else if (\<exists>d \<in> set (tbl_devices db). d_operator_id d = Some old)
              \<or> (\<exists>i \<in> set (tbl_interventions db). i_operator_id i = old)
              \<or> (\<exists>h \<in> set (tbl_intervention_history db). h_operator_id h = old)
      then Inl ForeignKeyViolation
      else Inr (db\<lparr> tbl_operators :=
                     map (\<lambda>k. if k = old then new else k) (tbl_operators db) \<rparr>))"
| "exec (DeleteOperator k) db =
     (let removed = map i_id (filter (\<lambda>i. i_operator_id i = k) (tbl_interventions db))
      in Inr (db\<lparr> tbl_operators := filter (\<lambda>j. j \<noteq> k) (tbl_operators db),
                  tbl_devices :=
                    map (\<lambda>d. if d_operator_id d = Some k then d\<lparr> d_operator_id := None \<rparr> else d)
                      (tbl_devices db),
                  tbl_interventions :=
                    filter (\<lambda>i. i_operator_id i \<noteq> k) (tbl_interventions db),
                  tbl_intervention_history :=
                    cascade_history removed
                      (filter (\<lambda>h. h_operator_id h \<noteq> k) (tbl_intervention_history db)) \<rparr>))"
| "exec (InsertDevice d) db =
     (if device_exists db (d_id d) then Inl UniqueViolation
      else if (case d_operator_id d of None \<Rightarrow> False | Some k \<Rightarrow> \<not> operator_exists db k)
      then Inl ForeignKeyViolation
      else Inr (db\<lparr> tbl_devices := tbl_devices db @ [d] \<rparr>))"
| "exec (UpdateDeviceOperator k operator) db =
     (if \<not> device_exists db k then Inr db
      else if (case operator of None \<Rightarrow> False | Some j \<Rightarrow> \<not> operator_exists db j)
      then Inl ForeignKeyViolation
      else Inr (db\<lparr> tbl_devices :=
                     map (\<lambda>d. if d_id d = k then d\<lparr> d_operator_id := operator \<rparr> else d)
                       (tbl_devices db) \<rparr>))"
| "exec (UpdateDeviceId old new) db =
     (if \<not> device_exists db old \<or> new = old then Inr db
      else if device_exists db new then Inl UniqueViolation
      else if (\<exists>i \<in> set (tbl_interventions db). i_device_id i = old)
              \<or> (\<exists>h \<in> set (tbl_intervention_history db). h_device_id h = old)
      then Inl ForeignKeyViolation
      else Inr (db\<lparr> tbl_devices :=
                     map (\<lambda>d. if d_id d = old then d\<lparr> d_id := new \<rparr> else d)
                       (tbl_devices db) \<rparr>))"
| "exec (DeleteDevice k) db =
     (let removed = map i_id (filter (\<lambda>i. i_device_id i = k) (tbl_interventions db))
      in Inr (db\<lparr> tbl_devices := filter (\<lambda>d. d_id d \<noteq> k) (tbl_devices db),
                  tbl_interventions :=
                    filter (\<lambda>i. i_device_id i \<noteq> k) (tbl_interventions db),
                  tbl_intervention_history :=
                    cascade_history removed
                      (filter (\<lambda>h. h_device_id h \<noteq> k) (tbl_intervention_history db)) \<rparr>))"
| "exec (InsertIntervention i) db =
     (if intervention_exists db (i_id i) then Inl UniqueViolation
      else if \<not> device_exists db (i_device_id i) \<or> \<not> operator_exists db (i_operator_id i)
      then Inl ForeignKeyViolation
      else Inr (db\<lparr> tbl_interventions := tbl_interventions db @ [i] \<rparr>))"
| "exec (UpdateIntervention k device operator) db =
     (if \<not> intervention_exists db k then Inr db
      else if \<not> device_exists db device \<or> \<not> operator_exists db operator
      then Inl ForeignKeyViolation
      else Inr (db\<lparr> tbl_interventions :=
                     map (\<lambda>i. if i_id i = k
                               then i\<lparr> i_device_id := device, i_operator_id := operator \<rparr>
                               else i)
                       (tbl_interventions db) \<rparr>))"
| "exec (UpdateInterventionId old new) db =
     (if \<not> intervention_exists db old \<or> new = old then Inr db
      else if intervention_exists db new then Inl UniqueViolation
      else if (\<exists>h \<in> set (tbl_intervention_history db). h_intervention_id h = old)
      then Inl ForeignKeyViolation
      else Inr (db\<lparr> tbl_interventions :=
                     map (\<lambda>i. if i_id i = old then i\<lparr> i_id := new \<rparr> else i)
                       (tbl_interventions db) \<rparr>))"
| "exec (DeleteIntervention k) db =
     Inr (db\<lparr> tbl_interventions := filter (\<lambda>i. i_id i \<noteq> k) (tbl_interventions db),
               tbl_intervention_history :=
                 cascade_history [k] (tbl_intervention_history db) \<rparr>)"
| "exec (InsertHistory h) db =
     (if history_exists db (h_id h) then Inl UniqueViolation
      else if \<not> device_exists db (h_device_id h) \<or> \<not> operator_exists db (h_operator_id h)
              \<or> \<not> intervention_exists db (h_intervention_id h)
      then Inl ForeignKeyViolation
      else Inr (db\<lparr> tbl_intervention_history := tbl_intervention_history db @ [h] \<rparr>))"
| "exec (UpdateHistory k device operator intervention) db =
     (if \<not> history_exists db k then Inr db
      else if \<not> device_exists db device \<or> \<not> operator_exists db operator
              \<or> \<not> intervention_exists db intervention
      then Inl ForeignKeyViolation
      else Inr (db\<lparr> tbl_intervention_history :=
                     map (\<lambda>h. if h_id h = k
                               then h\<lparr> h_device_id := device, h_operator_id := operator,
                                       h_intervention_id := intervention \<rparr>
                               else h)
                       (tbl_intervention_history db) \<rparr>))"
| "exec (DeleteHistory k) db =
     Inr (db\<lparr> tbl_intervention_history :=
                 filter (\<lambda>h. h_id h \<noteq> k) (tbl_intervention_history db) \<rparr>)"

text \<open>A session of statements; a failed statement leaves the database as it was.\<close>

fun run :: "statement list \<Rightarrow> database \<Rightarrow> database" where
  "run [] db = db"
| "run (s # ss) db = run ss (case exec s db of Inl e \<Rightarrow> db | Inr db' \<Rightarrow> db')"

text \<open>Every foreign key column holds the key of an existing row.\<close>

definition referential_integrity :: "database \<Rightarrow> bool" where
  "referential_integrity db \<longleftrightarrow>
     (\<forall>d \<in> set (tbl_devices db).
        case d_operator_id d of None \<Rightarrow> True | Some k \<Rightarrow> operator_exists db k)
     \<and> (\<forall>i \<in> set (tbl_interventions db).
          device_exists db (i_device_id i) \<and> operator_exists db (i_operator_id i))
     \<and> (\<forall>h \<in> set (tbl_intervention_history db).
          device_exists db (h_device_id h) \<and> operator_exists db (h_operator_id h)
          \<and> intervention_exists db (h_intervention_id h))"

section \<open>A backend and pages for evaluating examples\<close>

definition sampleRow :: "int \<Rightarrow> row" where
  "sampleRow k = [(str ''id'', Num (of_int k)), (str ''name'', Str (str ''Durand''))]"

definition sampleError :: jsvalue where
  "sampleError = Object [(str ''message'', Str (str ''relation does not exist''))]"

text \<open>
  A backend in which the relations listed in \<open>unavailable\<close> answer with an error and
  every other relation holds the rows 1 and 2.
\<close>

definition sampleBackend :: "jsstring list \<Rightarrow> backend" where
  "sampleBackend unavailable =
     \<lparr> select_list = (\<lambda>q. if from_relation q \<in> set unavailable
                           then \<lparr> data = None, error = sampleError \<rparr>
                           else \<lparr> data = Some [sampleRow 1, sampleRow 2], error = Null \<rparr>),
       select_single = (\<lambda>q. if eq_relation q \<in> set unavailable
                             then \<lparr> data = None, error = sampleError \<rparr>
                             else \<lparr> data = Some (sampleRow 1), error = Null \<rparr>),
       delete_eq = (\<lambda>q. if eq_relation q \<in> set unavailable
                         then \<lparr> data = None, error = sampleError \<rparr>
                         else \<lparr> data = None, error = Null \<rparr>) \<rparr>"


definition sampleViews :: "jsstring list" where
  "sampleViews = [str ''devices_with_relations'', str ''clients_with_devices'',
                  str ''quotes_invoices_with_relations'']"

text \<open>The state of each page when it mounts: \<open>useState([])\<close>, \<open>useState(true)\<close>.\<close>

definition initialDevices :: devices_page where
  "initialDevices = \<lparr> console = [], alerts = [], navigations = [], loading = True,
                       devices = [] \<rparr>"

definition initialClients :: clients_page where
  "initialClients = \<lparr> console = [], alerts = [], navigations = [], loading = True,
                       clients = [] \<rparr>"

definition initialInterventions :: interventions_page where
  "initialInterventions = \<lparr> console = [], alerts = [], navigations = [], loading = True,
                             interventions = [] \<rparr>"

definition initialQuotesInvoices :: quotes_invoices_page where
  "initialQuotesInvoices = \<lparr> console = [], alerts = [], navigations = [], loading = True,
                              quotesInvoices = [] \<rparr>"


text \<open>\<open>from(relation).select('*').order('created_at', { ascending: false })\<close>\<close>

definition newestFirst :: "jsstring \<Rightarrow> list_query" where
  "newestFirst relation = \<lparr> from_relation = relation, select_columns = str ''*'',
                             order_column = str ''created_at'', ascending = False \<rparr>"

text \<open>
  A session for evaluating examples: an operator, a device, an intervention on it with
  a history row, and an intervention on a device that does not exist.
\<close>

definition sampleSession :: "statement list" where
  "sampleSession =
     [InsertOperator 1,
      InsertDevice \<lparr> d_id = 10, d_operator_id = Some 1 \<rparr>,
      InsertIntervention \<lparr> i_id = 100, i_device_id = 10, i_operator_id = 1 \<rparr>,
      InsertHistory \<lparr> h_id = 1000, h_device_id = 10, h_operator_id = 1,
                      h_intervention_id = 100 \<rparr>,
      InsertIntervention \<lparr> i_id = 101, i_device_id = 11, i_operator_id = 1 \<rparr>]"

section \<open>Properties of categoryUtils\<close>

lemma map_of_categoryDiminutivesObject:
  "map_of categoryDiminutivesObject key = map_option Str (map_of categoryDiminutives key)"
  unfolding categoryDiminutivesObject_def by (simp add: map_of_map)

lemma diminutives_disjoint:
  "set (map snd categoryDiminutives) \<inter>
     (set (map fst categoryDiminutives) \<union> set objectPrototypeNames \<union> {[]}) = {}"
  by (simp add: categoryDiminutives_def objectPrototypeNames_def str_def)

lemma labels_distinct: "distinct (map fst categoryDiminutives)"
  by (simp add: categoryDiminutives_def str_def)

lemma diminutive_in_range:
  "map_of categoryDiminutives key = Some d \<Longrightarrow> d \<in> set (map snd categoryDiminutives)"
  by (force dest: map_of_SomeD)

lemma diminutive_nonempty:
  assumes "map_of categoryDiminutives key = Some d"
  shows "d \<noteq> []"
  using diminutive_in_range [OF assms] diminutives_disjoint by blast

lemma diminutive_not_label:
  assumes "map_of categoryDiminutives key = Some d"
  shows "map_of categoryDiminutives d = None"
proof -
  have "d \<notin> set (map fst categoryDiminutives)"
    using diminutive_in_range [OF assms] diminutives_disjoint by blast
  then show ?thesis by (simp add: map_of_eq_None_iff)
qed

lemma diminutive_not_inherited:
  assumes "map_of categoryDiminutives key = Some d"
  shows "d \<notin> set objectPrototypeNames"
  using diminutive_in_range [OF assms] diminutives_disjoint by blast

text \<open>The three cases of a lookup with a string: a label, an inherited name, any other.\<close>

lemma getCategoryAbbreviation_label:
  "map_of categoryDiminutives c = Some d \<Longrightarrow> getCategoryAbbreviation E (Str c) = Str d"
  by (simp add: getCategoryAbbreviation_def getProperty_def jsOr_def
      map_of_categoryDiminutivesObject diminutive_nonempty)

lemma getCategoryAbbreviation_inherited:
  "map_of categoryDiminutives c = None \<Longrightarrow> c \<in> set objectPrototypeNames \<Longrightarrow>
   getCategoryAbbreviation E (Str c) = Builtin c"
  by (simp add: getCategoryAbbreviation_def getProperty_def jsOr_def
      map_of_categoryDiminutivesObject)

lemma getCategoryAbbreviation_other:
  "map_of categoryDiminutives c = None \<Longrightarrow> c \<notin> set objectPrototypeNames \<Longrightarrow>
   getCategoryAbbreviation E (Str c) = Str c"
  by (simp add: getCategoryAbbreviation_def getProperty_def jsOr_def
      map_of_categoryDiminutivesObject)

lemma getCategoryAbbreviation_Builtin:
  "map_of categoryDiminutives (builtinToString E k) = None \<Longrightarrow>
   builtinToString E k \<notin> set objectPrototypeNames \<Longrightarrow>
   getCategoryAbbreviation E (Builtin k) = Builtin k"
  by (simp add: getCategoryAbbreviation_def getProperty_def jsOr_def
      map_of_categoryDiminutivesObject)

lemma constructor_no_label: "map_of categoryDiminutives (str ''constructor'') = None"
  by (simp add: categoryDiminutives_def str_def)

lemma Informatique_label:
  "map_of categoryDiminutives (str ''Informatique'') = Some (str ''INF'')"
  by (simp add: categoryDiminutives_def str_def)

text \<open>
  C1. getCategoryAbbreviation is meant to be total on strings: the abbreviation for each
  of the nine labels, the input itself for every other string. The lookup
  \<open>categoryDiminutives[category]\<close> also finds what the object inherits from
  \<open>Object.prototype\<close>; for the string \<open>constructor\<close> it yields that built-in function,
  which is truthy, so the function returns it and not the input string.
\<close>

theorem getCategoryAbbreviation_constructor:
  "getCategoryAbbreviation E (Str (str ''constructor'')) = Builtin (str ''constructor'')
   \<and> getCategoryAbbreviation E (Str (str ''constructor'')) \<noteq> Str (str ''constructor'')"
  using getCategoryAbbreviation_inherited [OF constructor_no_label, of E]
  by (simp add: objectPrototypeNames_def)

text \<open>
  C2. For every category string and every item-code string, getProductCode is the
  text of getCategoryAbbreviation of the category, then \<open>-\<close>, then the item code. For a
  label that is the abbreviation, and for a string that is neither a label nor an
  inherited name it is the category itself.
\<close>

theorem getProductCode_concat:
  "getProductCode E (Str category) (Str code) =
     ToString E (getCategoryAbbreviation E (Str category)) @ str ''-'' @ code
   \<and> (\<forall>d. map_of categoryDiminutives category = Some d \<longrightarrow>
          getProductCode E (Str category) (Str code) = d @ str ''-'' @ code)
   \<and> (map_of categoryDiminutives category = None \<and> category \<notin> set objectPrototypeNames \<longrightarrow>
          getProductCode E (Str category) (Str code) = category @ str ''-'' @ code)"
  by (simp add: getProductCode_def getCategoryAbbreviation_label getCategoryAbbreviation_other)

theorem getProductCode_concat_witness:
  "map_of categoryDiminutives (str ''Informatique'') = Some (str ''INF'')
   \<and> getProductCode sampleEngine (Str (str ''Informatique'')) (Str (str ''A'')) = str ''INF-A''"
proof -
  from getProductCode_concat [of sampleEngine "str ''Informatique''" "str ''A''"]
  have "getProductCode sampleEngine (Str (str ''Informatique'')) (Str (str ''A''))
        = str ''INF'' @ str ''-'' @ str ''A''"
    using Informatique_label by blast
  then show ?thesis using Informatique_label by (simp add: str_def)
qed

lemma startsWith_prefix: "startsWith s t = prefix t s"
  by (induction s t rule: startsWith.induct) auto

lemma includes_str_sublist: "includes_str s t = sublist t s"
  by (induction s) (auto simp: startsWith_prefix sublist_Cons_right)

lemma includes_str_iff: "includes_str s t \<longleftrightarrow> (\<exists>p q. s = p @ t @ q)"
  by (simp add: includes_str_sublist sublist_def)

lemma filter_entries_keys:
  "distinct (map fst al) \<Longrightarrow>
   map fst (filter (\<lambda>(k, v). P k v) al) =
   filter (\<lambda>k. \<exists>v. map_of al k = Some v \<and> P k v) (map fst al)"
proof (induction al)
  case Nil
  then show ?case by simp
next
  case (Cons e al)
  obtain k0 v0 where e: "e = (k0, v0)" by (cases e)
  from Cons.prems e have notin: "k0 \<notin> fst ` set al" and dist: "distinct (map fst al)"
    by auto
  have "filter (\<lambda>k. \<exists>v. map_of (e # al) k = Some v \<and> P k v) (map fst al)
      = filter (\<lambda>k. \<exists>v. map_of al k = Some v \<and> P k v) (map fst al)"
    using notin e by (intro filter_cong) auto
  with Cons.IH [OF dist] e show ?case by simp
qed

text \<open>
  C3. For every search term, searchInCategoryAbbreviations returns, in the order of the
  mapping, exactly the labels whose lower-cased label or lower-cased abbreviation
  contains the lower-cased term as a substring; every result is a label of the mapping;
  two terms with the same lower-casing give the same result.
\<close>

theorem searchInCategoryAbbreviations_spec:
  "searchInCategoryAbbreviations E (Str t) =
     Inr (filter (\<lambda>c. \<exists>d. map_of categoryDiminutives c = Some d \<and>
                     ((\<exists>p q. toLowerCase E c = p @ toLowerCase E t @ q) \<or>
                      (\<exists>p q. toLowerCase E d = p @ toLowerCase E t @ q)))
            (map fst categoryDiminutives))
   \<and> (\<forall>cs. searchInCategoryAbbreviations E (Str t) = Inr cs \<longrightarrow>
          set cs \<subseteq> set (map fst categoryDiminutives))
   \<and> (toLowerCase E t = toLowerCase E t' \<longrightarrow>
        searchInCategoryAbbreviations E (Str t) = searchInCategoryAbbreviations E (Str t'))"
proof (intro conjI)
  show "searchInCategoryAbbreviations E (Str t) =
     Inr (filter (\<lambda>c. \<exists>d. map_of categoryDiminutives c = Some d \<and>
                     ((\<exists>p q. toLowerCase E c = p @ toLowerCase E t @ q) \<or>
                      (\<exists>p q. toLowerCase E d = p @ toLowerCase E t @ q)))
            (map fst categoryDiminutives))"
    unfolding searchInCategoryAbbreviations_def
    by (simp add: Let_def filter_entries_keys [OF labels_distinct] includes_str_iff)
  show "\<forall>cs. searchInCategoryAbbreviations E (Str t) = Inr cs \<longrightarrow>
          set cs \<subseteq> set (map fst categoryDiminutives)"
    unfolding searchInCategoryAbbreviations_def by (auto simp: Let_def)
  show "toLowerCase E t = toLowerCase E t' \<longrightarrow>
        searchInCategoryAbbreviations E (Str t) = searchInCategoryAbbreviations E (Str t')"
    unfolding searchInCategoryAbbreviations_def by (simp add: Let_def)
qed

lemma search_inf:
  "searchInCategoryAbbreviations sampleEngine (Str (str ''inf'')) = Inr [str ''Informatique'']"
  by (simp add: searchInCategoryAbbreviations_def sampleEngine_def categoryDiminutives_def
      str_def lowerUnit_def)

theorem searchInCategoryAbbreviations_spec_witness:
  "toLowerCase sampleEngine (str ''inf'') = toLowerCase sampleEngine (str ''INF'')
   \<and> searchInCategoryAbbreviations sampleEngine (Str (str ''INF'')) = Inr [str ''Informatique'']
   \<and> set [str ''Informatique''] \<subseteq> set (map fst categoryDiminutives)"
proof -
  have same: "toLowerCase sampleEngine (str ''inf'') = toLowerCase sampleEngine (str ''INF'')"
    by (simp add: sampleEngine_def str_def lowerUnit_def)
  from searchInCategoryAbbreviations_spec [of sampleEngine "str ''inf''" "str ''INF''"] same
  have eq: "searchInCategoryAbbreviations sampleEngine (Str (str ''inf''))
          = searchInCategoryAbbreviations sampleEngine (Str (str ''INF''))"
    and sub: "\<forall>cs. searchInCategoryAbbreviations sampleEngine (Str (str ''inf'')) = Inr cs \<longrightarrow>
          set cs \<subseteq> set (map fst categoryDiminutives)"
    by blast+
  from sub search_inf have "set [str ''Informatique''] \<subseteq> set (map fst categoryDiminutives)"
    by blast
  with same eq search_inf show ?thesis by simp
qed

text \<open>
  C8. getCategoryAbbreviation is idempotent on every category string, because no
  abbreviation of the mapping is itself a label. An abbreviation is not an inherited
  name either, and where the first application returns an inherited built-in the
  second one looks up the text of that built-in, which on every engine is the source
  text of a native function or \<open>[object Object]\<close>: neither a label nor an inherited
  name. That property of the engine is the hypothesis.
\<close>

theorem getCategoryAbbreviation_idempotent:
  assumes "\<forall>k \<in> set objectPrototypeNames.
             builtinToString E k \<notin> set (map fst categoryDiminutives) \<union> set objectPrototypeNames"
  shows "getCategoryAbbreviation E (getCategoryAbbreviation E (Str c))
           = getCategoryAbbreviation E (Str c)
    \<and> set (map snd categoryDiminutives) \<inter> set (map fst categoryDiminutives) = {}"
proof
  show "set (map snd categoryDiminutives) \<inter> set (map fst categoryDiminutives) = {}"
    using diminutives_disjoint by blast
  show "getCategoryAbbreviation E (getCategoryAbbreviation E (Str c))
          = getCategoryAbbreviation E (Str c)"
  proof (cases "map_of categoryDiminutives c")
    case (Some d)
    then show ?thesis
      by (simp add: getCategoryAbbreviation_label getCategoryAbbreviation_other
          diminutive_not_label diminutive_not_inherited)
  next
    case None
    show ?thesis
    proof (cases "c \<in> set objectPrototypeNames")
      case True
      with assms have "builtinToString E c \<notin> set (map fst categoryDiminutives)"
        and "builtinToString E c \<notin> set objectPrototypeNames" by auto
      then show ?thesis using None True
        by (simp add: getCategoryAbbreviation_inherited getCategoryAbbreviation_Builtin
            map_of_eq_None_iff)
    next
      case False
      with None show ?thesis by (simp add: getCategoryAbbreviation_other)
    qed
  qed
qed

lemma sampleEngine_builtin_text:
  "\<forall>k \<in> set objectPrototypeNames.
     builtinToString sampleEngine k
       \<notin> set (map fst categoryDiminutives) \<union> set objectPrototypeNames"
  by (simp add: sampleEngine_def objectPrototypeNames_def categoryDiminutives_def str_def)

theorem getCategoryAbbreviation_idempotent_witness:
  "getCategoryAbbreviation sampleEngine
        (getCategoryAbbreviation sampleEngine (Str (str ''Informatique''))) = Str (str ''INF'')
   \<and> getCategoryAbbreviation sampleEngine
        (getCategoryAbbreviation sampleEngine (Str (str ''toString''))) = Builtin (str ''toString'')"
proof -
  have toString_no_label: "map_of categoryDiminutives (str ''toString'') = None"
    by (simp add: categoryDiminutives_def str_def)
  have toString_inherited: "str ''toString'' \<in> set objectPrototypeNames"
    by (simp add: objectPrototypeNames_def)
  from getCategoryAbbreviation_idempotent [OF sampleEngine_builtin_text, of "str ''Informatique''"]
  have "getCategoryAbbreviation sampleEngine
          (getCategoryAbbreviation sampleEngine (Str (str ''Informatique''))) = Str (str ''INF'')"
    by (simp add: getCategoryAbbreviation_label [OF Informatique_label])
  moreover
  from getCategoryAbbreviation_idempotent [OF sampleEngine_builtin_text, of "str ''toString''"]
  have "getCategoryAbbreviation sampleEngine
          (getCategoryAbbreviation sampleEngine (Str (str ''toString''))) = Builtin (str ''toString'')"
    by (simp add: getCategoryAbbreviation_inherited [OF toString_no_label toString_inherited])
  ultimately show ?thesis by blast
qed

section \<open>Properties of the page components\<close>

lemma fetchDevices_view_ok:
  "\<not> truthy (error (select_list B (newestFirst (str ''devices_with_relations'')))) \<Longrightarrow>
   fetchDevices B st =
     st\<lparr> devices := dataOrEmpty (data (select_list B (newestFirst (str ''devices_with_relations'')))),
         loading := False \<rparr>"
  by (simp add: fetchDevices_def newestFirst_def Let_def)

lemma fetchDevices_view_failed:
  "truthy (error (select_list B (newestFirst (str ''devices_with_relations'')))) \<Longrightarrow>
   devices (fetchDevices B st) =
     (if \<not> truthy (error (select_list B (newestFirst (str ''devices''))))
      then map (\<lambda>device. spread device
                  [(str ''operator_name'', Null), (str ''intervention_count'', Num 0),
                   (str ''last_intervention_date'', Null)])
             (dataOrEmpty (data (select_list B (newestFirst (str ''devices'')))))
      else [])"
  by (simp add: fetchDevices_def newestFirst_def Let_def)

lemma fetchClients_view_failed:
  "truthy (error (select_list B (newestFirst (str ''clients_with_devices'')))) \<Longrightarrow>
   clients (fetchClients B st) =
     (if \<not> truthy (error (select_list B (newestFirst (str ''clients''))))
      then dataOrEmpty (data (select_list B (newestFirst (str ''clients''))))
      else [])"
  by (simp add: fetchClients_def newestFirst_def Let_def)

lemma fetchQuotesInvoices_view_failed:
  "truthy (error (select_list B (newestFirst (str ''quotes_invoices_with_relations'')))) \<Longrightarrow>
   fetchQuotesInvoices B st =
     st\<lparr> console := console st @
           [ConsoleError (str ''Error fetching quotes and invoices:'')
              (error (select_list B (newestFirst (str ''quotes_invoices_with_relations''))))],
         loading := False \<rparr>"
  by (simp add: fetchQuotesInvoices_def newestFirst_def Let_def)

lemma getProperty_update:
  "getProperty (AList.update k v obj) key = (if key = k then v else getProperty obj key)"
  by (simp add: getProperty_def update_conv')

lemma getProperty_fallback_device:
  "getProperty
     (spread device
        [(str ''operator_name'', Null), (str ''intervention_count'', Num 0),
         (str ''last_intervention_date'', Null)]) key
   = (if key = str ''last_intervention_date'' then Null
      else if key = str ''intervention_count'' then Num 0
      else if key = str ''operator_name'' then Null
      else getProperty device key)"
  by (simp add: spread_def getProperty_update)

lemma sampleBackend_view_unavailable:
  "relation \<in> set unavailable \<Longrightarrow>
   truthy (error (select_list (sampleBackend unavailable) (newestFirst relation)))"
  by (simp add: sampleBackend_def newestFirst_def sampleError_def)

lemma sampleBackend_table_rows:
  "relation \<notin> set unavailable \<Longrightarrow>
   select_list (sampleBackend unavailable) (newestFirst relation)
     = \<lparr> data = Some [sampleRow 1, sampleRow 2], error = Null \<rparr>"
  by (simp add: sampleBackend_def newestFirst_def)

lemma sampleViews_members:
  "str ''devices_with_relations'' \<in> set sampleViews"
  "str ''clients_with_devices'' \<in> set sampleViews"
  "str ''quotes_invoices_with_relations'' \<in> set sampleViews"
  "str ''devices'' \<notin> set sampleViews"
  "str ''clients'' \<notin> set sampleViews"
  "str ''quotes_invoices'' \<notin> set sampleViews"
  by (simp_all add: sampleViews_def str_def)

text \<open>
  C4, as stated, fails for QuotesInvoices: with the view
  \<open>quotes_invoices_with_relations\<close> unavailable and the table \<open>quotes_invoices\<close>
  holding two rows, fetchQuotesInvoices leaves the list empty.
\<close>

theorem fetchQuotesInvoices_no_fallback:
  "truthy (error (select_list (sampleBackend sampleViews)
                    (newestFirst (str ''quotes_invoices_with_relations''))))
   \<and> dataOrEmpty (data (select_list (sampleBackend sampleViews)
                           (newestFirst (str ''quotes_invoices''))))
       = [sampleRow 1, sampleRow 2]
   \<and> quotesInvoices (fetchQuotesInvoices (sampleBackend sampleViews) initialQuotesInvoices) = []"
  by (simp add: fetchQuotesInvoices_view_failed sampleBackend_view_unavailable
      sampleBackend_table_rows sampleViews_members dataOrEmpty_def initialQuotesInvoices_def)

text \<open>
  C4, amended. When the query on the view \<open>devices_with_relations\<close> (Devices) or
  \<open>clients_with_devices\<close> (Clients) returns an error, the page issues the same query
  (all columns, newest \<open>created_at\<close> first) against the base table \<open>devices\<close> or
  \<open>clients\<close> and shows its rows in the order the backend returned them, the device rows
  completed with the defaults of the three joined columns and otherwise as the table
  returned them; when that query fails too the list is empty.
\<close>

theorem list_fetch_fallback:
  "(truthy (error (select_list B (newestFirst (str ''devices_with_relations'')))) \<longrightarrow>
      devices (fetchDevices B dst) =
        (if \<not> truthy (error (select_list B (newestFirst (str ''devices''))))
         then map (\<lambda>device. spread device
                     [(str ''operator_name'', Null), (str ''intervention_count'', Num 0),
                      (str ''last_intervention_date'', Null)])
                (dataOrEmpty (data (select_list B (newestFirst (str ''devices'')))))
         else []))
   \<and> (key \<notin> {str ''operator_name'', str ''intervention_count'', str ''last_intervention_date''} \<longrightarrow>
      getProperty
        (spread device
           [(str ''operator_name'', Null), (str ''intervention_count'', Num 0),
            (str ''last_intervention_date'', Null)]) key
        = getProperty device key)
   \<and> (truthy (error (select_list B (newestFirst (str ''clients_with_devices'')))) \<longrightarrow>
      clients (fetchClients B cst) =
        (if \<not> truthy (error (select_list B (newestFirst (str ''clients''))))
         then dataOrEmpty (data (select_list B (newestFirst (str ''clients''))))
         else []))
   \<and> order_column (newestFirst (str ''devices'')) = order_column (newestFirst (str ''devices_with_relations''))
   \<and> ascending (newestFirst (str ''devices'')) = ascending (newestFirst (str ''devices_with_relations''))
   \<and> order_column (newestFirst (str ''clients'')) = order_column (newestFirst (str ''clients_with_devices''))
   \<and> ascending (newestFirst (str ''clients'')) = ascending (newestFirst (str ''clients_with_devices''))"
proof -
  have columns:
    "key \<notin> {str ''operator_name'', str ''intervention_count'', str ''last_intervention_date''} \<longrightarrow>
      getProperty
        (spread device
           [(str ''operator_name'', Null), (str ''intervention_count'', Num 0),
            (str ''last_intervention_date'', Null)]) key
        = getProperty device key"
    by (simp add: getProperty_fallback_device)
  show ?thesis
    using columns
    by (simp add: fetchDevices_view_failed fetchClients_view_failed newestFirst_def)
qed

lemma spread_sampleRow:
  "spread (sampleRow k)
     [(str ''operator_name'', Null), (str ''intervention_count'', Num 0),
      (str ''last_intervention_date'', Null)]
   = sampleRow k @ [(str ''operator_name'', Null), (str ''intervention_count'', Num 0),
                    (str ''last_intervention_date'', Null)]"
  by (simp add: spread_def sampleRow_def str_def)

theorem list_fetch_fallback_witness:
  "devices (fetchDevices (sampleBackend sampleViews) initialDevices)
     = [sampleRow 1 @ [(str ''operator_name'', Null), (str ''intervention_count'', Num 0),
                       (str ''last_intervention_date'', Null)],
        sampleRow 2 @ [(str ''operator_name'', Null), (str ''intervention_count'', Num 0),
                       (str ''last_intervention_date'', Null)]]
   \<and> clients (fetchClients (sampleBackend sampleViews) initialClients)
     = [sampleRow 1, sampleRow 2]"
proof -
  note fb = list_fetch_fallback [where B = "sampleBackend sampleViews"
      and dst = initialDevices and cst = initialClients]
  have v: "truthy (error (select_list (sampleBackend sampleViews)
                            (newestFirst (str ''devices_with_relations''))))"
    "truthy (error (select_list (sampleBackend sampleViews)
                            (newestFirst (str ''clients_with_devices''))))"
    by (simp_all add: sampleBackend_view_unavailable sampleViews_members)
  from fb v have
    "devices (fetchDevices (sampleBackend sampleViews) initialDevices) =
        (if \<not> truthy (error (select_list (sampleBackend sampleViews) (newestFirst (str ''devices''))))
         then map (\<lambda>device. spread device
                     [(str ''operator_name'', Null), (str ''intervention_count'', Num 0),
                      (str ''last_intervention_date'', Null)])
                (dataOrEmpty (data (select_list (sampleBackend sampleViews) (newestFirst (str ''devices'')))))
         else [])"
    and "clients (fetchClients (sampleBackend sampleViews) initialClients) =
        (if \<not> truthy (error (select_list (sampleBackend sampleViews) (newestFirst (str ''clients''))))
         then dataOrEmpty (data (select_list (sampleBackend sampleViews) (newestFirst (str ''clients''))))
         else [])"
    by blast+
  then show ?thesis
    by (simp add: sampleBackend_table_rows sampleViews_members dataOrEmpty_def
        spread_sampleRow)
qed











section \<open>Properties of the client-side sort\<close>

lemma mset_insertBy: "mset (insertBy cmp x xs) = add_mset x (mset xs)"
  by (induction xs) auto

lemma mset_sortBy: "mset (sortBy cmp xs) = mset xs"
  by (induction xs) (auto simp: mset_insertBy)

lemma set_insertBy: "set (insertBy cmp x xs) = insert x (set xs)"
  by (induction xs) auto

text \<open>
  The model is a sort: for a comparator that orders every pair and is transitive, it
  returns a list in which no element is put after a later one.
\<close>

lemma sorted_insertBy:
  assumes total: "\<And>a b. cmp a b \<le> 0 \<or> cmp b a \<le> 0"
    and trans: "\<And>a b c. cmp a b \<le> 0 \<Longrightarrow> cmp b c \<le> 0 \<Longrightarrow> cmp a c \<le> 0"
  shows "sorted_wrt (\<lambda>a b. cmp a b \<le> 0) xs \<Longrightarrow>
         sorted_wrt (\<lambda>a b. cmp a b \<le> 0) (insertBy cmp x xs)"
proof (induction xs)
  case Nil
  then show ?case by simp
next
  case (Cons y ys)
  show ?case
  proof (cases "cmp x y \<le> 0")
    case True
    with Cons.prems trans show ?thesis by auto
  next
    case False
    with total have "cmp y x \<le> 0" by blast
    with False Cons show ?thesis by (auto simp: set_insertBy)
  qed
qed

lemma sorted_sortBy:
  assumes total: "\<And>a b. cmp a b \<le> 0 \<or> cmp b a \<le> 0"
    and trans: "\<And>a b c. cmp a b \<le> 0 \<Longrightarrow> cmp b c \<le> 0 \<Longrightarrow> cmp a c \<le> 0"
  shows "sorted_wrt (\<lambda>a b. cmp a b \<le> 0) (sortBy cmp xs)"
proof (induction xs)
  case Nil
  then show ?case by simp
next
  case (Cons x xs)
  from sorted_insertBy [of cmp, OF total trans Cons.IH]
  show ?case by simp
qed

lemma insertBy_constant: "insertBy (\<lambda>a b. 0) x xs = x # xs"
  by (cases xs) auto

lemma sortBy_constant: "sortBy (\<lambda>a b. 0) xs = xs"
  by (induction xs) (auto simp: insertBy_constant)

lemma compareBySortField_no_field: "compareBySortField E [] d = (\<lambda>a b. 0)"
  by (intro ext) (simp add: compareBySortField_def)

lemma stringLess_irrefl: "\<not> stringLess s s"
  by (induction s) auto

lemma jsLess_same_string: "\<not> jsLess E (Str s) (Str s)"
  by (simp add: jsLess_def stringLess_irrefl)

text \<open>
  C10. On Devices, Interventions and QuotesInvoices the sorted list is a permutation of
  the filtered list, for every list, sort field and direction; with no sort field it is
  the filtered list in its order. The comparator sees a string only lower-cased: rows
  whose values in the sort field agree after lower-casing compare the same, and two
  strings that differ in case only compare equal.
\<close>

theorem sorted_list_permutation:
  "mset (sortedDevices E sortField sortDirection filtered) = mset filtered
   \<and> mset (sortedInterventions E sortField sortDirection filtered) = mset filtered
   \<and> mset (sortedQuotesInvoices E sortField sortDirection filtered) = mset filtered
   \<and> sortedDevices E [] sortDirection filtered = filtered
   \<and> sortedInterventions E [] sortDirection filtered = filtered
   \<and> sortedQuotesInvoices E [] sortDirection filtered = filtered
   \<and> (lowerIfString E (getProperty a sortField) = lowerIfString E (getProperty a' sortField) \<and>
      lowerIfString E (getProperty b sortField) = lowerIfString E (getProperty b' sortField) \<longrightarrow>
        compareBySortField E sortField sortDirection a b
          = compareBySortField E sortField sortDirection a' b')
   \<and> (\<forall>s t. getProperty a sortField = Str s \<and> getProperty b sortField = Str t \<and>
            toLowerCase E s = toLowerCase E t \<longrightarrow>
        compareBySortField E sortField sortDirection a b = 0)"
proof (intro conjI)
  show "mset (sortedDevices E sortField sortDirection filtered) = mset filtered"
    by (simp add: sortedDevices_def mset_sortBy)
  show "mset (sortedInterventions E sortField sortDirection filtered) = mset filtered"
    by (simp add: sortedInterventions_def mset_sortBy)
  show "mset (sortedQuotesInvoices E sortField sortDirection filtered) = mset filtered"
    by (simp add: sortedQuotesInvoices_def mset_sortBy)
  show "sortedDevices E [] sortDirection filtered = filtered"
    by (simp add: sortedDevices_def compareBySortField_no_field sortBy_constant)
  show "sortedInterventions E [] sortDirection filtered = filtered"
    by (simp add: sortedInterventions_def compareBySortField_no_field sortBy_constant)
  show "sortedQuotesInvoices E [] sortDirection filtered = filtered"
    by (simp add: sortedQuotesInvoices_def compareBySortField_no_field sortBy_constant)
  show "lowerIfString E (getProperty a sortField) = lowerIfString E (getProperty a' sortField) \<and>
      lowerIfString E (getProperty b sortField) = lowerIfString E (getProperty b' sortField) \<longrightarrow>
        compareBySortField E sortField sortDirection a b
          = compareBySortField E sortField sortDirection a' b'"
    by (simp add: compareBySortField_def)
  show "\<forall>s t. getProperty a sortField = Str s \<and> getProperty b sortField = Str t \<and>
            toLowerCase E s = toLowerCase E t \<longrightarrow>
        compareBySortField E sortField sortDirection a b = 0"
    by (auto simp: compareBySortField_def lowerIfString_def jsLess_same_string Let_def)
qed

lemma sortedDevices_names:
  "sortedDevices sampleEngine (str ''name'') asc
     [[(str ''name'', Str (str ''Bob''))], [(str ''name'', Str (str ''alice''))]]
   = [[(str ''name'', Str (str ''alice''))], [(str ''name'', Str (str ''Bob''))]]"
  by (simp add: sortedDevices_def compareBySortField_def lowerIfString_def getProperty_def
      jsLess_def sampleEngine_def lowerUnit_def str_def)

theorem sorted_list_permutation_witness:
  "mset (sortedDevices sampleEngine (str ''name'') asc
           [[(str ''name'', Str (str ''Bob''))], [(str ''name'', Str (str ''alice''))]])
     = mset [[(str ''name'', Str (str ''Bob''))], [(str ''name'', Str (str ''alice''))]]
   \<and> sortedDevices sampleEngine (str ''name'') asc
           [[(str ''name'', Str (str ''Bob''))], [(str ''name'', Str (str ''alice''))]]
     = [[(str ''name'', Str (str ''alice''))], [(str ''name'', Str (str ''Bob''))]]
   \<and> compareBySortField sampleEngine (str ''name'') asc
        [(str ''name'', Str (str ''BOB''))] [(str ''name'', Str (str ''bob''))] = 0"
proof -
  note th = sorted_list_permutation [of sampleEngine "str ''name''" asc
      "[[(str ''name'', Str (str ''Bob''))], [(str ''name'', Str (str ''alice''))]]"
      "[(str ''name'', Str (str ''BOB''))]" "[(str ''name'', Str (str ''BOB''))]"
      "[(str ''name'', Str (str ''bob''))]" "[(str ''name'', Str (str ''bob''))]"]
  have p: "getProperty [(str ''name'', Str (str ''BOB''))] (str ''name'') = Str (str ''BOB'')"
    "getProperty [(str ''name'', Str (str ''bob''))] (str ''name'') = Str (str ''bob'')"
    by (simp_all add: getProperty_def)
  have l: "toLowerCase sampleEngine (str ''BOB'') = toLowerCase sampleEngine (str ''bob'')"
    by (simp add: sampleEngine_def lowerUnit_def str_def)
  from th p l have "compareBySortField sampleEngine (str ''name'') asc
        [(str ''name'', Str (str ''BOB''))] [(str ''name'', Str (str ''bob''))] = 0"
    by blast
  moreover from th have "mset (sortedDevices sampleEngine (str ''name'') asc
           [[(str ''name'', Str (str ''Bob''))], [(str ''name'', Str (str ''alice''))]])
     = mset [[(str ''name'', Str (str ''Bob''))], [(str ''name'', Str (str ''alice''))]]"
    by blast
  ultimately show ?thesis using sortedDevices_names by blast
qed

section \<open>Properties of the relational schema\<close>

lemmas exists_defs =
  operator_exists_def device_exists_def intervention_exists_def history_exists_def

lemma referential_integrity_iff:
  "referential_integrity db \<longleftrightarrow>
     (\<forall>d \<in> set (tbl_devices db). \<forall>k. d_operator_id d = Some k \<longrightarrow> k \<in> set (tbl_operators db))
     \<and> (\<forall>i \<in> set (tbl_interventions db).
          i_device_id i \<in> d_id ` set (tbl_devices db) \<and> i_operator_id i \<in> set (tbl_operators db))
     \<and> (\<forall>h \<in> set (tbl_intervention_history db).
          h_device_id h \<in> d_id ` set (tbl_devices db) \<and> h_operator_id h \<in> set (tbl_operators db)
          \<and> h_intervention_id h \<in> i_id ` set (tbl_interventions db))"
  by (auto simp: referential_integrity_def exists_defs split: option.splits)

lemma key_image_map_if:
  assumes "\<And>x. key (f x) = key x"
  shows "key ` set (map (\<lambda>x. if P x then f x else x) xs) = key ` set xs"
  using assms by (induction xs) auto

lemma exec_DeleteOperator_preserves:
  assumes ri: "referential_integrity db" and ex: "exec (DeleteOperator k) db = Inr db'"
  shows "referential_integrity db'"
proof -
  from ex have
    ops: "tbl_operators db' = filter (\<lambda>j. j \<noteq> k) (tbl_operators db)" and
    devs: "tbl_devices db' =
       map (\<lambda>d. if d_operator_id d = Some k then d\<lparr> d_operator_id := None \<rparr> else d) (tbl_devices db)" and
    ivs: "tbl_interventions db' = filter (\<lambda>i. i_operator_id i \<noteq> k) (tbl_interventions db)" and
    hist: "tbl_intervention_history db' =
       filter (\<lambda>h. h_intervention_id h
                   \<notin> set (map i_id (filter (\<lambda>i. i_operator_id i = k) (tbl_interventions db))))
         (filter (\<lambda>h. h_operator_id h \<noteq> k) (tbl_intervention_history db))"
    by (auto simp: Let_def cascade_history_def)
  have dkeys: "d_id ` set (tbl_devices db') = d_id ` set (tbl_devices db)"
    unfolding devs by (rule key_image_map_if) simp
  from ri have
    r1: "\<forall>d \<in> set (tbl_devices db). \<forall>j. d_operator_id d = Some j \<longrightarrow> j \<in> set (tbl_operators db)" and
    r2: "\<forall>i \<in> set (tbl_interventions db).
          i_device_id i \<in> d_id ` set (tbl_devices db) \<and> i_operator_id i \<in> set (tbl_operators db)" and
    r3: "\<forall>h \<in> set (tbl_intervention_history db).
          h_device_id h \<in> d_id ` set (tbl_devices db) \<and> h_operator_id h \<in> set (tbl_operators db)
          \<and> h_intervention_id h \<in> i_id ` set (tbl_interventions db)"
    by (simp_all add: referential_integrity_iff)
  have c1: "\<forall>d \<in> set (tbl_devices db'). \<forall>j. d_operator_id d = Some j \<longrightarrow> j \<in> set (tbl_operators db')"
    using r1 unfolding devs ops by auto
  have c2: "\<forall>i \<in> set (tbl_interventions db').
          i_device_id i \<in> d_id ` set (tbl_devices db') \<and> i_operator_id i \<in> set (tbl_operators db')"
    using r2 unfolding dkeys unfolding ivs ops by auto
  have c3: "\<forall>h \<in> set (tbl_intervention_history db').
          h_device_id h \<in> d_id ` set (tbl_devices db') \<and> h_operator_id h \<in> set (tbl_operators db')
          \<and> h_intervention_id h \<in> i_id ` set (tbl_interventions db')"
    using r3 unfolding dkeys unfolding ivs ops hist by (auto simp: image_iff)
  from c1 c2 c3 show ?thesis by (simp add: referential_integrity_iff)
qed


lemma exec_DeleteDevice_tables:
  assumes "exec (DeleteDevice k) db = Inr db'"
  shows "tbl_operators db' = tbl_operators db"
    and "tbl_devices db' = filter (\<lambda>d. d_id d \<noteq> k) (tbl_devices db)"
    and "tbl_interventions db' = filter (\<lambda>i. i_device_id i \<noteq> k) (tbl_interventions db)"
    and "tbl_intervention_history db' =
       filter (\<lambda>h. h_intervention_id h
                   \<notin> set (map i_id (filter (\<lambda>i. i_device_id i = k) (tbl_interventions db))))
         (filter (\<lambda>h. h_device_id h \<noteq> k) (tbl_intervention_history db))"
  using assms by (auto simp: Let_def cascade_history_def)

lemma exec_DeleteDevice_preserves:
  assumes ri: "referential_integrity db" and ex: "exec (DeleteDevice k) db = Inr db'"
  shows "referential_integrity db'"
proof -
  note t = exec_DeleteDevice_tables [OF ex]
  from ri have
    r1: "\<forall>d \<in> set (tbl_devices db). \<forall>j. d_operator_id d = Some j \<longrightarrow> j \<in> set (tbl_operators db)" and
    r2: "\<forall>i \<in> set (tbl_interventions db).
          i_device_id i \<in> d_id ` set (tbl_devices db) \<and> i_operator_id i \<in> set (tbl_operators db)" and
    r3: "\<forall>h \<in> set (tbl_intervention_history db).
          h_device_id h \<in> d_id ` set (tbl_devices db) \<and> h_operator_id h \<in> set (tbl_operators db)
          \<and> h_intervention_id h \<in> i_id ` set (tbl_interventions db)"
    by (simp_all add: referential_integrity_iff)
  have c1: "\<forall>d \<in> set (tbl_devices db'). \<forall>j. d_operator_id d = Some j \<longrightarrow> j \<in> set (tbl_operators db')"
    using r1 unfolding t by auto
  have c2: "\<forall>i \<in> set (tbl_interventions db').
          i_device_id i \<in> d_id ` set (tbl_devices db') \<and> i_operator_id i \<in> set (tbl_operators db')"
    using r2 unfolding t by (auto simp: image_iff)
  have c3: "\<forall>h \<in> set (tbl_intervention_history db').
          h_device_id h \<in> d_id ` set (tbl_devices db') \<and> h_operator_id h \<in> set (tbl_operators db')
          \<and> h_intervention_id h \<in> i_id ` set (tbl_interventions db')"
    using r3 unfolding t by (auto simp: image_iff)
  from c1 c2 c3 show ?thesis by (simp add: referential_integrity_iff)
qed

lemma exec_DeleteIntervention_preserves:
  assumes ri: "referential_integrity db" and ex: "exec (DeleteIntervention k) db = Inr db'"
  shows "referential_integrity db'"
proof -
  from ex have t:
    "tbl_operators db' = tbl_operators db"
    "tbl_devices db' = tbl_devices db"
    "tbl_interventions db' = filter (\<lambda>i. i_id i \<noteq> k) (tbl_interventions db)"
    "tbl_intervention_history db' =
       filter (\<lambda>h. h_intervention_id h \<noteq> k) (tbl_intervention_history db)"
    by (auto simp: cascade_history_def)
  from ri show ?thesis
    unfolding referential_integrity_iff t by (auto simp: image_iff)
qed

lemma exec_UpdateDeviceOperator_preserves:
  assumes ri: "referential_integrity db"
    and ex: "exec (UpdateDeviceOperator k operator) db = Inr db'"
  shows "referential_integrity db'"
proof (cases "db' = db")
  case True
  with ri show ?thesis by simp
next
  case False
  with ex have fk: "\<forall>j. operator = Some j \<longrightarrow> j \<in> set (tbl_operators db)" and t:
    "tbl_operators db' = tbl_operators db"
    "tbl_devices db' =
       map (\<lambda>d. if d_id d = k then d\<lparr> d_operator_id := operator \<rparr> else d) (tbl_devices db)"
    "tbl_interventions db' = tbl_interventions db"
    "tbl_intervention_history db' = tbl_intervention_history db"
    by (auto simp: exists_defs split: if_splits option.splits)
  have dkeys: "d_id ` set (tbl_devices db') = d_id ` set (tbl_devices db)"
    unfolding t by (rule key_image_map_if) simp
  have c1: "\<forall>d \<in> set (tbl_devices db'). \<forall>j. d_operator_id d = Some j \<longrightarrow> j \<in> set (tbl_operators db')"
    using ri fk unfolding referential_integrity_iff t by auto
  from ri c1 show ?thesis
    unfolding referential_integrity_iff dkeys unfolding t(1,3,4) by simp
qed

lemma exec_UpdateDeviceId_preserves:
  assumes ri: "referential_integrity db"
    and ex: "exec (UpdateDeviceId old new) db = Inr db'"
  shows "referential_integrity db'"
proof (cases "db' = db")
  case True
  with ri show ?thesis by simp
next
  case False
  with ex have unref:
    "\<forall>i \<in> set (tbl_interventions db). i_device_id i \<noteq> old"
    "\<forall>h \<in> set (tbl_intervention_history db). h_device_id h \<noteq> old"
    and t:
    "tbl_operators db' = tbl_operators db"
    "tbl_devices db' = map (\<lambda>d. if d_id d = old then d\<lparr> d_id := new \<rparr> else d) (tbl_devices db)"
    "tbl_interventions db' = tbl_interventions db"
    "tbl_intervention_history db' = tbl_intervention_history db"
    by (auto split: if_splits)
  have keep: "\<And>j. j \<noteq> old \<Longrightarrow> j \<in> d_id ` set (tbl_devices db) \<Longrightarrow> j \<in> d_id ` set (tbl_devices db')"
    unfolding t by (auto simp: image_iff)
  have c1: "\<forall>d \<in> set (tbl_devices db'). \<forall>j. d_operator_id d = Some j \<longrightarrow> j \<in> set (tbl_operators db')"
    using ri unfolding referential_integrity_iff t by auto
  have c2: "\<forall>i \<in> set (tbl_interventions db').
          i_device_id i \<in> d_id ` set (tbl_devices db') \<and> i_operator_id i \<in> set (tbl_operators db')"
    using ri unref(1) keep unfolding referential_integrity_iff t(1,3,4) by blast
  have c3: "\<forall>h \<in> set (tbl_intervention_history db').
          h_device_id h \<in> d_id ` set (tbl_devices db') \<and> h_operator_id h \<in> set (tbl_operators db')
          \<and> h_intervention_id h \<in> i_id ` set (tbl_interventions db')"
    using ri unref(2) keep unfolding referential_integrity_iff t(1,3,4) by blast
  from c1 c2 c3 show ?thesis by (simp add: referential_integrity_iff)
qed

lemma exec_InsertIntervention_preserves:
  assumes ri: "referential_integrity db"
    and ex: "exec (InsertIntervention i) db = Inr db'"
  shows "referential_integrity db'"
proof -
  from ex have fk: "i_device_id i \<in> d_id ` set (tbl_devices db)"
    "i_operator_id i \<in> set (tbl_operators db)" and t:
    "tbl_operators db' = tbl_operators db"
    "tbl_devices db' = tbl_devices db"
    "tbl_interventions db' = tbl_interventions db @ [i]"
    "tbl_intervention_history db' = tbl_intervention_history db"
    by (auto simp: exists_defs split: if_splits)
  from ri fk show ?thesis
    unfolding referential_integrity_iff t by auto
qed

lemma exec_UpdateIntervention_preserves:
  assumes ri: "referential_integrity db"
    and ex: "exec (UpdateIntervention k device operator) db = Inr db'"
  shows "referential_integrity db'"
proof (cases "db' = db")
  case True
  with ri show ?thesis by simp
next
  case False
  with ex have fk: "device \<in> d_id ` set (tbl_devices db)" "operator \<in> set (tbl_operators db)"
    and t:
    "tbl_operators db' = tbl_operators db"
    "tbl_devices db' = tbl_devices db"
    "tbl_interventions db' =
       map (\<lambda>i. if i_id i = k then i\<lparr> i_device_id := device, i_operator_id := operator \<rparr> else i)
         (tbl_interventions db)"
    "tbl_intervention_history db' = tbl_intervention_history db"
    by (auto simp: exists_defs split: if_splits)
  have ikeys: "i_id ` set (tbl_interventions db') = i_id ` set (tbl_interventions db)"
    unfolding t by (rule key_image_map_if) simp
  have c2: "\<forall>i \<in> set (tbl_interventions db').
          i_device_id i \<in> d_id ` set (tbl_devices db') \<and> i_operator_id i \<in> set (tbl_operators db')"
    using ri fk unfolding referential_integrity_iff t by auto
  from ri c2 show ?thesis
    unfolding referential_integrity_iff ikeys unfolding t(1,2,4) by simp
qed

lemma exec_UpdateInterventionId_preserves:
  assumes ri: "referential_integrity db"
    and ex: "exec (UpdateInterventionId old new) db = Inr db'"
  shows "referential_integrity db'"
proof (cases "db' = db")
  case True
  with ri show ?thesis by simp
next
  case False
  with ex have unref:
    "\<forall>h \<in> set (tbl_intervention_history db). h_intervention_id h \<noteq> old"
    and t:
    "tbl_operators db' = tbl_operators db"
    "tbl_devices db' = tbl_devices db"
    "tbl_interventions db' =
       map (\<lambda>i. if i_id i = old then i\<lparr> i_id := new \<rparr> else i) (tbl_interventions db)"
    "tbl_intervention_history db' = tbl_intervention_history db"
    by (auto split: if_splits)
  have keep: "\<And>j. j \<noteq> old \<Longrightarrow> j \<in> i_id ` set (tbl_interventions db)
                \<Longrightarrow> j \<in> i_id ` set (tbl_interventions db')"
    unfolding t by (auto simp: image_iff)
  have c2: "\<forall>i \<in> set (tbl_interventions db').
          i_device_id i \<in> d_id ` set (tbl_devices db') \<and> i_operator_id i \<in> set (tbl_operators db')"
    using ri unfolding referential_integrity_iff t by auto
  have c3: "\<forall>h \<in> set (tbl_intervention_history db').
          h_device_id h \<in> d_id ` set (tbl_devices db') \<and> h_operator_id h \<in> set (tbl_operators db')
          \<and> h_intervention_id h \<in> i_id ` set (tbl_interventions db')"
    using ri unref keep unfolding referential_integrity_iff t(1,2,4) by blast
  from ri c2 c3 show ?thesis by (simp add: referential_integrity_iff t(1,2))
qed

lemma exec_UpdateHistory_preserves:
  assumes ri: "referential_integrity db"
    and ex: "exec (UpdateHistory k device operator intervention) db = Inr db'"
  shows "referential_integrity db'"
proof (cases "db' = db")
  case True
  with ri show ?thesis by simp
next
  case False
  with ex have fk: "device \<in> d_id ` set (tbl_devices db)" "operator \<in> set (tbl_operators db)"
    "intervention \<in> i_id ` set (tbl_interventions db)"
    and t:
    "tbl_operators db' = tbl_operators db"
    "tbl_devices db' = tbl_devices db"
    "tbl_interventions db' = tbl_interventions db"
    "tbl_intervention_history db' =
       map (\<lambda>h. if h_id h = k
                 then h\<lparr> h_device_id := device, h_operator_id := operator,
                         h_intervention_id := intervention \<rparr>
                 else h)
         (tbl_intervention_history db)"
    by (auto simp: exists_defs split: if_splits)
  from ri fk show ?thesis
    unfolding referential_integrity_iff t by auto
qed

lemma exec_other_preserves:
  assumes "referential_integrity db"
  shows "exec (InsertOperator k) db = Inr db' \<Longrightarrow> referential_integrity db'"
    and "exec (UpdateOperatorId old new) db = Inr db' \<Longrightarrow> referential_integrity db'"
    and "exec (InsertDevice d) db = Inr db' \<Longrightarrow> referential_integrity db'"
    and "exec (InsertHistory h) db = Inr db' \<Longrightarrow> referential_integrity db'"
    and "exec (DeleteHistory j) db = Inr db' \<Longrightarrow> referential_integrity db'"
  using assms
  by (auto simp: referential_integrity_def exists_defs split: if_splits option.splits)

lemma exec_preserves:
  assumes "referential_integrity db" and "exec s db = Inr db'"
  shows "referential_integrity db'"
proof (cases s)
  case (InsertOperator k)
  with assms show ?thesis by (blast intro: exec_other_preserves)
next
  case (UpdateOperatorId old new)
  with assms show ?thesis by (blast intro: exec_other_preserves)
next
  case (DeleteOperator k)
  with assms show ?thesis by (blast intro: exec_DeleteOperator_preserves)
next
  case (InsertDevice d)
  with assms show ?thesis by (blast intro: exec_other_preserves)
next
  case (UpdateDeviceOperator k operator)
  with assms show ?thesis by (blast intro: exec_UpdateDeviceOperator_preserves)
next
  case (UpdateDeviceId old new)
  with assms show ?thesis by (blast intro: exec_UpdateDeviceId_preserves)
next
  case (DeleteDevice k)
  with assms show ?thesis by (blast intro: exec_DeleteDevice_preserves)
next
  case (InsertIntervention i)
  with assms show ?thesis by (blast intro: exec_InsertIntervention_preserves)
next
  case (UpdateIntervention k device operator)
  with assms show ?thesis by (blast intro: exec_UpdateIntervention_preserves)
next
  case (UpdateInterventionId old new)
  with assms show ?thesis by (blast intro: exec_UpdateInterventionId_preserves)
next
  case (DeleteIntervention k)
  with assms show ?thesis by (blast intro: exec_DeleteIntervention_preserves)
next
  case (InsertHistory h)
  with assms show ?thesis by (blast intro: exec_other_preserves)
next
  case (UpdateHistory k device operator intervention)
  with assms show ?thesis by (blast intro: exec_UpdateHistory_preserves)
next
  case (DeleteHistory k)
  with assms show ?thesis by (blast intro: exec_other_preserves)
qed

lemma referential_integrity_empty: "referential_integrity empty_database"
  by (simp add: referential_integrity_def empty_database_def)

lemma run_preserves: "referential_integrity db \<Longrightarrow> referential_integrity (run ss db)"
proof (induction ss arbitrary: db)
  case Nil
  then show ?case by simp
next
  case (Cons s ss)
  show ?case
  proof (cases "exec s db")
    case (Inl e)
    with Cons show ?thesis by simp
  next
    case (Inr db')
    with Cons.prems have "referential_integrity db'" by (rule exec_preserves)
    with Cons.IH Inr show ?thesis by simp
  qed
qed

lemma run_sampleSession:
  "run sampleSession empty_database =
     \<lparr> tbl_operators = [1],
       tbl_devices = [\<lparr> d_id = 10, d_operator_id = Some 1 \<rparr>],
       tbl_interventions = [\<lparr> i_id = 100, i_device_id = 10, i_operator_id = 1 \<rparr>],
       tbl_intervention_history =
         [\<lparr> h_id = 1000, h_device_id = 10, h_operator_id = 1, h_intervention_id = 100 \<rparr>] \<rparr>"
  by (simp add: sampleSession_def empty_database_def exists_defs)

text \<open>
  C7. The foreign keys alone keep the references of interventions to devices valid: in
  every database state reached from the empty tables by any statements, each
  intervention and each history row has the \<open>device_id\<close> of an existing device (and
  every other foreign key column holds an existing key). Deleting a device always
  succeeds and removes, in the same statement, the device, every intervention with that
  \<open>device_id\<close>, and every history row with that \<open>device_id\<close> or of a removed
  intervention; the other interventions stay.
\<close>

theorem device_references_maintained:
  "(\<forall>i \<in> set (tbl_interventions (run ss empty_database)).
      device_exists (run ss empty_database) (i_device_id i))
   \<and> (\<forall>h \<in> set (tbl_intervention_history (run ss empty_database)).
      device_exists (run ss empty_database) (h_device_id h))
   \<and> referential_integrity (run ss empty_database)
   \<and> (\<exists>db'. exec (DeleteDevice k) db = Inr db'
        \<and> \<not> device_exists db' k
        \<and> tbl_interventions db' = filter (\<lambda>i. i_device_id i \<noteq> k) (tbl_interventions db)
        \<and> tbl_intervention_history db' =
            filter (\<lambda>h. h_device_id h \<noteq> k \<and>
                        h_intervention_id h
                          \<notin> i_id ` {i \<in> set (tbl_interventions db). i_device_id i = k})
              (tbl_intervention_history db)
        \<and> (\<forall>i \<in> set (tbl_interventions db'). i_device_id i \<noteq> k)
        \<and> (\<forall>h \<in> set (tbl_intervention_history db'). h_device_id h \<noteq> k))"
proof -
  have ri: "referential_integrity (run ss empty_database)"
    by (rule run_preserves [OF referential_integrity_empty])
  then have refs:
    "\<forall>i \<in> set (tbl_interventions (run ss empty_database)).
      device_exists (run ss empty_database) (i_device_id i)"
    "\<forall>h \<in> set (tbl_intervention_history (run ss empty_database)).
      device_exists (run ss empty_database) (h_device_id h)"
    by (simp_all add: referential_integrity_def)
  obtain db' where ex: "exec (DeleteDevice k) db = Inr db'"
    by (simp add: Let_def)
  note t = exec_DeleteDevice_tables [OF ex]
  have "\<not> device_exists db' k"
    unfolding device_exists_def t by auto
  moreover have "tbl_intervention_history db' =
            filter (\<lambda>h. h_device_id h \<noteq> k \<and>
                        h_intervention_id h
                          \<notin> i_id ` {i \<in> set (tbl_interventions db). i_device_id i = k})
              (tbl_intervention_history db)"
    unfolding t by (auto intro: filter_cong)
  moreover have "\<forall>i \<in> set (tbl_interventions db'). i_device_id i \<noteq> k"
    unfolding t by simp
  moreover have "\<forall>h \<in> set (tbl_intervention_history db'). h_device_id h \<noteq> k"
    unfolding t by simp
  ultimately show ?thesis using ri refs ex t(3) by blast
qed

theorem device_references_maintained_witness:
  "tbl_interventions (run sampleSession empty_database)
     = [\<lparr> i_id = 100, i_device_id = 10, i_operator_id = 1 \<rparr>]
   \<and> device_exists (run sampleSession empty_database) 10
   \<and> exec (DeleteDevice 10) (run sampleSession empty_database)
       = Inr \<lparr> tbl_operators = [1], tbl_devices = [], tbl_interventions = [],
               tbl_intervention_history = [] \<rparr>"
proof -
  from device_references_maintained [of sampleSession 10 "run sampleSession empty_database"]
  have "\<forall>i \<in> set (tbl_interventions (run sampleSession empty_database)).
          device_exists (run sampleSession empty_database) (i_device_id i)"
    by blast
  then have "device_exists (run sampleSession empty_database) 10"
    by (simp add: run_sampleSession)
  then show ?thesis
    by (simp add: run_sampleSession cascade_history_def)
qed

end
